theory Spec2Isabelle
  imports Complex_Main
begin

section \<open>Values shared by the models\<close>

text \<open>
  A \<open>datetime\<close> is a point in time counted in microseconds from a fixed epoch, the
  resolution of Python's \<open>datetime\<close>. A \<open>Decimal\<close> of a \<open>DecimalField\<close> is an exact
  rational: the sums and products taken below are exact in Python's decimal context
  for the field widths the models declare.
\<close>

type_synonym datetime = int
type_synonym decimal = rat

text \<open>
  \<open>a - b\<close> on two datetimes is a normalised \<open>timedelta\<close>: \<open>0 \<le> seconds < 86400\<close> and
  \<open>0 \<le> microseconds < 10^6\<close>, the sign carried by \<open>days\<close> alone.
\<close>

record timedelta =
  days :: int
  seconds :: int
  microseconds :: int

definition datetime_sub :: "datetime \<Rightarrow> datetime \<Rightarrow> timedelta" where
  "datetime_sub a b =
     (let us = a - b
      in \<lparr>days = us div 86400000000,
          seconds = (us mod 86400000000) div 1000000,
          microseconds = us mod 1000000\<rparr>)"

text \<open>
  \<open>queryset.filter(p).update(f)\<close> over the selected rows: the rows matching \<open>p\<close> are
  rewritten by \<open>f\<close>, the others are left as they are, and the number of matched rows is
  returned (the \<open>updated\<close> the admin actions report in their message).
\<close>

definition filter_update :: "('a \<Rightarrow> bool) \<Rightarrow> ('a \<Rightarrow> 'a) \<Rightarrow> 'a list \<Rightarrow> nat \<times> 'a list" where
  "filter_update p f queryset =
     (length (filter p queryset), map (\<lambda>r. if p r then f r else r) queryset)"

datatype py_error =
  ValueError | TokenError | DatabaseError | IntegrityError | AttributeError | ParseError
  | InvalidOperation


section \<open>Python strings and numbers\<close>

text \<open>
  A string is the list of its code points, each below 256. \<open>str(n)\<close> of a
  non-negative integer is the list of its decimal digits; \<open>digit_char\<close> is only applied
  to a number below 10. The format \<open>{n:04d}\<close> pads with zeros on the left to a width of
  at least four, the sign of a negative number counted in the width.
\<close>

definition digit_char :: "nat \<Rightarrow> char" where
  "digit_char d = ''0123456789'' ! d"

fun str_of_nat :: "nat \<Rightarrow> string" where
  "str_of_nat n = (if n < 10 then [digit_char n] else str_of_nat (n div 10) @ [digit_char (n mod 10)])"

declare str_of_nat.simps [simp del]

definition format_04d :: "int \<Rightarrow> string" where
  "format_04d n =
     (if n < 0
      then CHR ''-'' # replicate (3 - length (str_of_nat (nat (- n)))) CHR ''0''
             @ str_of_nat (nat (- n))
      else replicate (4 - length (str_of_nat (nat n))) CHR ''0'' @ str_of_nat (nat n))"

text \<open>
  \<open>int(s)\<close>: blanks are dropped at both ends (among the code points below 256 these
  are 9 to 13, 32, 133 and 160), then comes an optional sign, then decimal digits, where
  single underscores may stand between two digits. Every other string raises
  \<open>ValueError\<close>.
\<close>

definition is_digit :: "char \<Rightarrow> bool" where
  "is_digit c \<longleftrightarrow> 48 \<le> (of_char c :: nat) \<and> (of_char c :: nat) \<le> 57"

definition digit_val :: "char \<Rightarrow> nat" where
  "digit_val c = of_char c - 48"

definition digits_value :: "string \<Rightarrow> nat" where
  "digits_value s = foldl (\<lambda>a c. 10 * a + digit_val c) 0 s"

definition is_space :: "char \<Rightarrow> bool" where
  "is_space c \<longleftrightarrow> (of_char c :: nat) \<in> set [9, 10, 11, 12, 13, 32, 133, 160]"

definition strip :: "string \<Rightarrow> string" where
  "strip s = rev (dropWhile is_space (rev (dropWhile is_space s)))"

fun digit_groups :: "string \<Rightarrow> bool" where
  "digit_groups [] = False"
| "digit_groups [c] = is_digit c"
| "digit_groups (c # d # cs) =
     (is_digit c \<and> (if d = CHR ''_'' then digit_groups cs else digit_groups (d # cs)))"

definition int_of_str :: "string \<Rightarrow> py_error + int" where
  "int_of_str s =
     (let t = strip s;
          negative = (t \<noteq> [] \<and> hd t = CHR ''-'');
          body = (if t \<noteq> [] \<and> (hd t = CHR ''-'' \<or> hd t = CHR ''+'') then tl t else t)
      in if digit_groups body
         then Inr ((if negative then - 1 else 1) *
                   int (digits_value (filter (\<lambda>c. c \<noteq> CHR ''_'') body)))
         else Inl ValueError)"

text \<open>
  \<open>s.startswith(p)\<close>, the slice \<open>s[-4:]\<close>, and the order of two strings by the codes
  of their characters, the order in which the database sorts invoice numbers.
\<close>

definition startswith :: "string \<Rightarrow> string \<Rightarrow> bool" where
  "startswith s p \<longleftrightarrow> take (length p) s = p"

definition last4 :: "string \<Rightarrow> string" where
  "last4 s = drop (length s - 4) s"

fun str_less :: "string \<Rightarrow> string \<Rightarrow> bool" where
  "str_less [] [] = False"
| "str_less [] (y # ys) = True"
| "str_less (x # xs) [] = False"
| "str_less (x # xs) (y # ys) =
     ((of_char x :: nat) < of_char y \<or> (x = y \<and> str_less xs ys))"

text \<open>
  \<open>queryset.order_by('-invoice_number').first()\<close>: the greatest number of the
  queryset, \<open>None\<close> when it is empty.
\<close>

fun first_desc :: "string list \<Rightarrow> string option" where
  "first_desc [] = None"
| "first_desc (x # xs) = Some (foldl (\<lambda>m s. if str_less m s then s else m) x xs)"


section \<open>bookings/models.py\<close>

record Booking =
  booking_reference :: string
  pickup_date :: datetime
  return_date :: datetime
  actual_pickup_date :: "datetime option"
  actual_return_date :: "datetime option"
  status :: string
  payment_status :: string
  daily_rate :: decimal
  total_days :: nat
  subtotal :: decimal
  tax_amount :: decimal
  discount_amount :: decimal
  additional_fees :: decimal
  security_deposit :: decimal
  total_amount :: decimal
  insurance_cost :: decimal
  confirmed_at :: "datetime option"
  cancelled_at :: "datetime option"
  cancellation_reason :: "string option"

text \<open>
  \<open>generate_booking_reference\<close>: the prefix, today's date as \<open>%y%m%d\<close> and four random
  digits. The clock and the random source are the two arguments.
\<close>

definition generate_booking_reference :: "string \<Rightarrow> string \<Rightarrow> string" where
  "generate_booking_reference timestamp random_suffix = ''BK'' @ timestamp @ random_suffix"

text \<open>
  \<open>Booking.save\<close>: fills an empty reference and stores the row as it is. No other field
  is computed here or anywhere else in the repository.
\<close>

definition Booking_save :: "string \<Rightarrow> string \<Rightarrow> Booking \<Rightarrow> Booking" where
  "Booking_save timestamp random_suffix b =
     (if booking_reference b = []
      then b\<lparr>booking_reference := generate_booking_reference timestamp random_suffix\<rparr>
      else b)"

definition calculate_total_days :: "Booking \<Rightarrow> int" where
  "calculate_total_days b =
     (let delta = datetime_sub (return_date b) (pickup_date b)
      in max 1 (days delta))"

definition can_be_cancelled :: "datetime \<Rightarrow> Booking \<Rightarrow> bool" where
  "can_be_cancelled now b \<longleftrightarrow>
     Booking.status b \<in> set [''pending'', ''confirmed''] \<and> pickup_date b > now"

record BookingAddOn =
  name :: string
  addon_type :: string
  pricing_type :: string
  price :: decimal
  is_active :: bool

record BookingAddOnAssignment =
  booking :: Booking
  addon :: BookingAddOn
  quantity :: nat
  unit_price :: decimal
  total_price :: decimal
  added_at :: datetime

text \<open>
  A \<open>DecimalField(max_digits, decimal_places)\<close> stores a value rounded to
  \<open>decimal_places\<close> places, and refuses it when the rounded value needs more than
  \<open>max_digits\<close> digits. With eight digits and two places the values refused are those
  of magnitude 999999.995 and above.
\<close>

definition fits_decimal_field :: "nat \<Rightarrow> nat \<Rightarrow> decimal \<Rightarrow> bool" where
  "fits_decimal_field max_digits decimal_places v \<longleftrightarrow>
     \<bar>v\<bar> < 10 ^ (max_digits - decimal_places) - 1 / (2 * 10 ^ decimal_places)"

text \<open>
  \<open>BookingAddOnAssignment.save\<close>: the total is set, then the row is written by the
  framework's \<open>save\<close>. \<open>adding\<close> tells an insert from an update: on an insert
  \<open>added_at\<close> (\<open>auto_now_add\<close>) is overwritten with the current time. The write raises
  when \<open>unit_price\<close> or \<open>total_price\<close> does not fit its field. The result is the
  instance after the call, its \<open>total_price\<close> the product as computed. The other
  constraints of the table (the unique pair of booking and add-on, the foreign keys) are
  not part of the model: the row is taken to satisfy them.
\<close>

definition BookingAddOnAssignment_save ::
  "bool \<Rightarrow> datetime \<Rightarrow> BookingAddOnAssignment \<Rightarrow> py_error + BookingAddOnAssignment" where
  "BookingAddOnAssignment_save adding now self =
     (let priced = self\<lparr>total_price := unit_price self * of_nat (quantity self)\<rparr>;
          stamped = (if adding then priced\<lparr>added_at := now\<rparr> else priced)
      in if fits_decimal_field 8 2 (unit_price stamped) \<and>
            fits_decimal_field 8 2 (total_price stamped)
         then Inr stamped
         else Inl InvalidOperation)"


section \<open>bookings/admin.py: the bulk actions of BookingAdmin\<close>

definition confirm_bookings :: "Booking list \<Rightarrow> nat \<times> Booking list" where
  "confirm_bookings queryset =
     filter_update (\<lambda>b. Booking.status b = ''pending'')
       (\<lambda>b. b\<lparr>Booking.status := ''confirmed''\<rparr>) queryset"

definition start_rentals :: "Booking list \<Rightarrow> nat \<times> Booking list" where
  "start_rentals queryset =
     filter_update (\<lambda>b. Booking.status b = ''confirmed'')
       (\<lambda>b. b\<lparr>Booking.status := ''active''\<rparr>) queryset"

definition complete_rentals :: "Booking list \<Rightarrow> nat \<times> Booking list" where
  "complete_rentals queryset =
     filter_update (\<lambda>b. Booking.status b = ''active'')
       (\<lambda>b. b\<lparr>Booking.status := ''completed''\<rparr>) queryset"

definition cancel_bookings :: "datetime \<Rightarrow> Booking list \<Rightarrow> nat \<times> Booking list" where
  "cancel_bookings now queryset =
     filter_update (\<lambda>b. Booking.status b \<in> set [''pending'', ''confirmed''])
       (\<lambda>b. b\<lparr>Booking.status := ''cancelled'', cancelled_at := Some now\<rparr>) queryset"


section \<open>payment/models.py and payment/admin.py\<close>

record Payment =
  transaction_id :: string
  amount :: decimal
  currency :: string
  status :: string
  payment_date :: "datetime option"
  refund_amount :: decimal
  refund_date :: "datetime option"
  refund_reason :: "string option"

definition is_refundable :: "Payment \<Rightarrow> bool" where
  "is_refundable p \<longleftrightarrow> Payment.status p = ''completed'' \<and> refund_amount p < Payment.amount p"

definition refund_payments :: "Payment list \<Rightarrow> nat \<times> Payment list" where
  "refund_payments queryset =
     filter_update (\<lambda>p. Payment.status p = ''completed'')
       (\<lambda>p. p\<lparr>Payment.status := ''refunded''\<rparr>) queryset"

text \<open>
  \<open>Invoice.generate_invoice_number\<close>. \<open>year\<close> is \<open>datetime.now().year\<close> and
  \<open>objects\<close> the invoice table. \<open>Invoice.save\<close> of a new row: an empty number is
  generated first, \<open>issue_date\<close> (\<open>auto_now_add\<close>) is overwritten with today's date,
  and the insert fails with \<open>IntegrityError\<close> when the number is already in the table
  (\<open>invoice_number\<close> is unique). The dates of an invoice are counted in days.
\<close>

record Invoice =
  invoice_number :: string
  issue_date :: int
  due_date :: int
  status :: string
  tax_rate :: decimal
  paid_amount :: decimal

definition generate_invoice_number :: "nat \<Rightarrow> Invoice list \<Rightarrow> py_error + string" where
  "generate_invoice_number year objects =
     (let prefix = ''INV'';
          last_invoice =
            first_desc (filter (\<lambda>n. startswith n (prefix @ str_of_nat year))
                          (map invoice_number objects))
      in case last_invoice of
           Some number \<Rightarrow>
             (case int_of_str (last4 number) of
                Inl e \<Rightarrow> Inl e
              | Inr last_number \<Rightarrow>
                  Inr (prefix @ str_of_nat year @ format_04d (last_number + 1)))
         | None \<Rightarrow> Inr (prefix @ str_of_nat year @ format_04d 1))"

definition Invoice_save ::
  "nat \<Rightarrow> int \<Rightarrow> Invoice \<Rightarrow> Invoice list \<Rightarrow> py_error + Invoice list" where
  "Invoice_save year today self objects =
     (case (if invoice_number self = [] then generate_invoice_number year objects
            else Inr (invoice_number self)) of
        Inl e \<Rightarrow> Inl e
      | Inr number \<Rightarrow>
          if number \<in> set (map invoice_number objects) then Inl IntegrityError
          else Inr (objects @ [self\<lparr>invoice_number := number, issue_date := today\<rparr>]))"


section \<open>vehicles/models.py\<close>

record Vehicle =
  license_plate :: string
  status :: string
  condition :: string
  daily_rate :: decimal
  weekly_rate :: "decimal option"
  monthly_rate :: "decimal option"
  is_featured :: bool
  is_active :: bool

definition is_available_for_booking :: "Vehicle \<Rightarrow> bool" where
  "is_available_for_booking v \<longleftrightarrow> Vehicle.status v = ''available'' \<and> Vehicle.is_active v"


section \<open>authentication/views.py: LogoutView\<close>

record UserSession =
  user :: nat
  session_key :: string
  is_active :: bool

record Response =
  data :: "(string \<times> string) list"
  status_code :: nat

text \<open>
  The parsed body of a request, \<open>request.data\<close>: a JSON value. An object is the list
  of its items in the order read; a later item with the same key replaces an earlier
  one. Form data is an object whose values are strings.
\<close>

datatype json =
  JNull | JBool bool | JNum rat | JStr string | JList "json list"
  | JDict "(string \<times> json) list"

text \<open>The truth value Python gives a parsed JSON value in \<open>if refresh_token:\<close>.\<close>

fun truthy :: "json \<Rightarrow> bool" where
  "truthy JNull = False"
| "truthy (JBool b) = b"
| "truthy (JNum n) = (n \<noteq> 0)"
| "truthy (JStr s) = (s \<noteq> [])"
| "truthy (JList xs) = (xs \<noteq> [])"
| "truthy (JDict items) = (items \<noteq> [])"

text \<open>
  \<open>LogoutView.post\<close>. The state is the table of user sessions and the token blacklist.
  \<open>db_fault\<close> is the exception, if any, that the session update raises.
  \<open>request_data\<close> is the outcome of reading \<open>request.data\<close>: the exception the parser
  raises, or the parsed value; \<open>.get\<close> on a value that is not an object raises
  \<open>AttributeError\<close>. \<open>blacklist\<close> stands for \<open>RefreshToken(refresh_token)\<close> followed
  by \<open>token.blacklist()\<close> of the token library: it answers with the exception it
  raised, if any, and the blacklist it leaves behind. The inner
  \<open>except Exception: pass\<close> drops that exception; the outer one turns every other
  exception into the 400 response. The session update is the first statement, so the
  sessions are already deactivated when reading the body fails.
\<close>

definition LogoutView_post ::
  "py_error option \<Rightarrow> (json \<Rightarrow> string list \<Rightarrow> py_error option \<times> string list) \<Rightarrow>
   nat \<Rightarrow> py_error + json \<Rightarrow> UserSession list \<times> string list \<Rightarrow>
   Response \<times> UserSession list \<times> string list" where
  "LogoutView_post db_fault blacklist request_user request_data st =
     (case db_fault of
        Some e \<Rightarrow> (\<lparr>data = [(''error'', ''Logout failed'')], status_code = 400\<rparr>, st)
      | None \<Rightarrow>
          (let sessions =
                 snd (filter_update
                        (\<lambda>s. user s = request_user \<and> UserSession.is_active s)
                        (\<lambda>s. s\<lparr>UserSession.is_active := False\<rparr>) (fst st))
           in case request_data of
                Inl e \<Rightarrow>
                  (\<lparr>data = [(''error'', ''Logout failed'')], status_code = 400\<rparr>,
                   sessions, snd st)
              | Inr (JDict items) \<Rightarrow>
                  (let blacklisted =
                         (case map_of (rev items) ''refresh_token'' of
                            None \<Rightarrow> snd st
                          | Some refresh_token \<Rightarrow>
                              if truthy refresh_token
                              then snd (blacklist refresh_token (snd st))
                              else snd st)
                   in (\<lparr>data = [(''message'', ''Logout successful'')], status_code = 200\<rparr>,
                       sessions, blacklisted))
              | Inr _ \<Rightarrow>
                  (\<lparr>data = [(''error'', ''Logout failed'')], status_code = 400\<rparr>,
                   sessions, snd st)))"


section \<open>The pricing identity of the specification\<close>

text \<open>
  The identity the specification states between the stored pricing fields of a booking.
  It is a predicate on rows, written from the specification's words; no function of the
  repository computes either side.
\<close>

definition total_amount_identity :: "Booking \<Rightarrow> bool" where
  "total_amount_identity b \<longleftrightarrow>
     subtotal b = Booking.daily_rate b * of_nat (total_days b) \<and>
     total_amount b =
       subtotal b + tax_amount b + additional_fees b + insurance_cost b - discount_amount b"


section \<open>Invoice numbers of a year\<close>

text \<open>
  The shape of the invoice numbers of a year with a four-digit counter (\<open>INV\<close>, four
  digits of the year, four digits of the counter), the counter an invoice number
  carries, and the highest counter among the numbers of a year, 0 when there is none.
\<close>

definition is_invoice_number :: "string \<Rightarrow> bool" where
  "is_invoice_number s \<longleftrightarrow>
     length s = 11 \<and> take 3 s = ''INV'' \<and> list_all is_digit (drop 3 s)"

definition counter :: "string \<Rightarrow> nat" where
  "counter s = digits_value (last4 s)"

definition highest_counter :: "nat \<Rightarrow> Invoice list \<Rightarrow> nat" where
  "highest_counter year objects =
     fold max
       (map counter
          (filter (\<lambda>n. startswith n (''INV'' @ str_of_nat year)) (map invoice_number objects)))
       0"


section \<open>Example rows\<close>

definition day :: int where
  "day = 86400000000"

definition booking_3_days :: Booking where
  "booking_3_days =
     \<lparr>booking_reference = ''BK2501010042'',
      pickup_date = 10 * day, return_date = 13 * day,
      actual_pickup_date = None, actual_return_date = None,
      status = ''pending'', payment_status = ''pending'',
      daily_rate = 100, total_days = 3, subtotal = 300,
      tax_amount = 0, discount_amount = 0, additional_fees = 0,
      security_deposit = 0, total_amount = 300, insurance_cost = 0,
      confirmed_at = None, cancelled_at = None, cancellation_reason = None\<rparr>"

definition booking_completed :: Booking where
  "booking_completed = booking_3_days\<lparr>Booking.status := ''completed''\<rparr>"

definition booking_mispriced :: Booking where
  "booking_mispriced = booking_3_days\<lparr>booking_reference := [], total_amount := 250\<rparr>"

definition payment_100 :: Payment where
  "payment_100 =
     \<lparr>transaction_id = ''TXN25010112000042'', amount = 100, currency = ''ZAR'',
      status = ''completed'', payment_date = Some 0, refund_amount = 30,
      refund_date = None, refund_reason = None\<rparr>"

definition addon_percentage :: BookingAddOn where
  "addon_percentage =
     \<lparr>name = ''Premium cover'', addon_type = ''other'', pricing_type = ''percentage'',
      price = 10, is_active = True\<rparr>"

definition assignment_percentage :: BookingAddOnAssignment where
  "assignment_percentage =
     \<lparr>booking = booking_3_days, addon = addon_percentage, quantity = 1,
      unit_price = 10, total_price = 0, added_at = 0\<rparr>"

definition blacklist_accepting :: "json \<Rightarrow> string list \<Rightarrow> py_error option \<times> string list" where
  "blacklist_accepting token blacklisted =
     (case token of JStr t \<Rightarrow> (None, t # blacklisted) | _ \<Rightarrow> (Some TokenError, blacklisted))"

definition blacklist_raising :: "json \<Rightarrow> string list \<Rightarrow> py_error option \<times> string list" where
  "blacklist_raising token blacklisted = (Some TokenError, blacklisted)"

definition session_of_user_1 :: UserSession where
  "session_of_user_1 = \<lparr>user = 1, session_key = ''k1'', is_active = True\<rparr>"

definition new_invoice :: Invoice where
  "new_invoice =
     \<lparr>invoice_number = [], issue_date = 0, due_date = 30, status = ''draft'',
      tax_rate = 15, paid_amount = 0\<rparr>"

definition invoice_9999 :: Invoice where
  "invoice_9999 = new_invoice\<lparr>invoice_number := ''INV20259999''\<rparr>"

definition invoice_10000 :: Invoice where
  "invoice_10000 = new_invoice\<lparr>invoice_number := ''INV202510000''\<rparr>"

definition invoice_0001 :: Invoice where
  "invoice_0001 = new_invoice\<lparr>invoice_number := ''INV20250001''\<rparr>"


section \<open>Rows that a bulk update skips\<close>

lemma filter_update_single:
  "filter_update p f [r] = (if p r then (1, [f r]) else (0, [r]))"
  by (simp add: filter_update_def)

lemma filter_update_skip:
  "\<not> p r \<Longrightarrow>
   filter_update p f (pre @ r # post) =
     (fst (filter_update p f pre) + fst (filter_update p f post),
      snd (filter_update p f pre) @ r # snd (filter_update p f post))"
  by (simp add: filter_update_def)


section \<open>Booking lifecycle\<close>

text \<open>
  Claim C1. A booking whose status is terminal (\<open>completed\<close>, \<open>cancelled\<close> or
  \<open>no_show\<close>) is not moved by any of the four status-transition actions (confirm,
  start, complete, cancel): applied to that booking alone each action updates zero rows
  and leaves it as it is, and inside any selection the booking is skipped in place,
  the count being that of the other rows. In particular nothing leaves \<open>completed\<close>.
  The failure is the action's zero count; no exception is raised.
\<close>

theorem terminal_status_blocks_transitions:
  assumes "Booking.status b \<in> {''completed'', ''cancelled'', ''no_show''}"
  shows "confirm_bookings [b] = (0, [b]) \<and>
         start_rentals [b] = (0, [b]) \<and>
         complete_rentals [b] = (0, [b]) \<and>
         cancel_bookings now [b] = (0, [b]) \<and>
         confirm_bookings (pre @ b # post) =
           (fst (confirm_bookings pre) + fst (confirm_bookings post),
            snd (confirm_bookings pre) @ b # snd (confirm_bookings post)) \<and>
         start_rentals (pre @ b # post) =
           (fst (start_rentals pre) + fst (start_rentals post),
            snd (start_rentals pre) @ b # snd (start_rentals post)) \<and>
         complete_rentals (pre @ b # post) =
           (fst (complete_rentals pre) + fst (complete_rentals post),
            snd (complete_rentals pre) @ b # snd (complete_rentals post)) \<and>
         cancel_bookings now (pre @ b # post) =
           (fst (cancel_bookings now pre) + fst (cancel_bookings now post),
            snd (cancel_bookings now pre) @ b # snd (cancel_bookings now post))"
proof -
  from assms have n1: "Booking.status b \<noteq> ''pending''"
    and n2: "Booking.status b \<noteq> ''confirmed''"
    and n3: "Booking.status b \<noteq> ''active''"
    by auto
  from n1 n2 have n4: "Booking.status b \<notin> set [''pending'', ''confirmed'']"
    by simp
  show ?thesis
    unfolding confirm_bookings_def start_rentals_def complete_rentals_def cancel_bookings_def
    using n1 n2 n3 n4 by (simp add: filter_update_single filter_update_skip)
qed

theorem terminal_status_blocks_transitions_witness:
  "Booking.status booking_completed \<in> {''completed'', ''cancelled'', ''no_show''} \<and>
   confirm_bookings [booking_completed] = (0, [booking_completed]) \<and>
   start_rentals [booking_completed] = (0, [booking_completed]) \<and>
   complete_rentals [booking_completed] = (0, [booking_completed]) \<and>
   cancel_bookings 0 [booking_completed] = (0, [booking_completed])"
proof -
  have h: "Booking.status booking_completed \<in> {''completed'', ''cancelled'', ''no_show''}"
    by (simp add: booking_completed_def)
  show ?thesis
    using h terminal_status_blocks_transitions [OF h, of 0 "[]" "[]"] by simp
qed


text \<open>
  Claim C2, as the claim states it, fails: \<open>cancel_bookings\<close> filters on the status
  alone. A pending booking whose pickup date has passed, for which \<open>can_be_cancelled\<close>
  is false, is cancelled all the same, and no cancellation reason is recorded.
\<close>

theorem cancel_bookings_past_pickup_counterexample:
  "pickup_date booking_3_days < 11 * day \<and>
   \<not> can_be_cancelled (11 * day) booking_3_days \<and>
   cancel_bookings (11 * day) [booking_3_days] =
     (1, [booking_3_days\<lparr>Booking.status := ''cancelled'', cancelled_at := Some (11 * day)\<rparr>]) \<and>
   cancel_bookings (11 * day) [booking_3_days] \<noteq> (0, [booking_3_days]) \<and>
   cancellation_reason (hd (snd (cancel_bookings (11 * day) [booking_3_days]))) = None"
  by (simp add: cancel_bookings_def filter_update_single can_be_cancelled_def
      booking_3_days_def day_def)

text \<open>
  Claim C2, amended. \<open>can_be_cancelled\<close> holds exactly when the status is \<open>pending\<close>
  or \<open>confirmed\<close> and the pickup date is still in the future. For such a booking
  \<open>cancel_bookings\<close> succeeds: one row updated, the status set to \<open>cancelled\<close> and
  \<open>cancelled_at\<close> stamped with the current time, \<open>cancellation_reason\<close> and every
  other field left as they were. A booking whose status is neither \<open>pending\<close> nor
  \<open>confirmed\<close> is left unchanged, with zero rows updated and no exception.
\<close>

theorem cancel_bookings_guard:
  "can_be_cancelled now b =
     ((Booking.status b = ''pending'' \<or> Booking.status b = ''confirmed'') \<and> now < pickup_date b) \<and>
   (can_be_cancelled now b \<longrightarrow>
      cancel_bookings now [b] =
        (1, [b\<lparr>Booking.status := ''cancelled'', cancelled_at := Some now\<rparr>]) \<and>
      cancellation_reason (hd (snd (cancel_bookings now [b]))) = cancellation_reason b) \<and>
   (Booking.status b \<noteq> ''pending'' \<and> Booking.status b \<noteq> ''confirmed'' \<longrightarrow>
      cancel_bookings now [b] = (0, [b]))"
  by (auto simp add: cancel_bookings_def filter_update_single can_be_cancelled_def)

theorem cancel_bookings_guard_witness:
  "can_be_cancelled 0 booking_3_days \<and>
   cancel_bookings 0 [booking_3_days] =
     (1, [booking_3_days\<lparr>Booking.status := ''cancelled'', cancelled_at := Some 0\<rparr>]) \<and>
   Booking.status booking_completed \<noteq> ''pending'' \<and>
   Booking.status booking_completed \<noteq> ''confirmed'' \<and>
   cancel_bookings 0 [booking_completed] = (0, [booking_completed])"
proof -
  have h1: "can_be_cancelled 0 booking_3_days"
    by (simp add: can_be_cancelled_def booking_3_days_def day_def)
  have h2: "Booking.status booking_completed \<noteq> ''pending'' \<and>
            Booking.status booking_completed \<noteq> ''confirmed''"
    by (simp add: booking_completed_def)
  show ?thesis
    using h1 h2 cancel_bookings_guard [of 0 booking_3_days]
      cancel_bookings_guard [of 0 booking_completed]
    by simp
qed


section \<open>Pricing\<close>

text \<open>
  Claim C5. \<open>calculate_total_days\<close> is the maximum of 1 and the whole-day difference
  between \<open>return_date\<close> and \<open>pickup_date\<close> (the \<open>days\<close> of their timedelta), so it is
  at least 1 for every booking, it is 1 when the two dates are equal, and it is 1 for
  every rental shorter than 24 hours.
\<close>

theorem calculate_total_days_at_least_one:
  "calculate_total_days b = max 1 ((return_date b - pickup_date b) div 86400000000) \<and>
   1 \<le> calculate_total_days b \<and>
   calculate_total_days (b\<lparr>return_date := pickup_date b\<rparr>) = 1 \<and>
   (return_date b - pickup_date b < 86400000000 \<longrightarrow> calculate_total_days b = 1)"
proof -
  have eq: "calculate_total_days b = max 1 ((return_date b - pickup_date b) div 86400000000)"
    by (simp add: calculate_total_days_def datetime_sub_def Let_def)
  have short: "calculate_total_days b = 1" if "return_date b - pickup_date b < 86400000000"
  proof -
    from that have "(return_date b - pickup_date b) div 86400000000 \<le> 0"
      by arith
    with eq show ?thesis by simp
  qed
  have same: "calculate_total_days (b\<lparr>return_date := pickup_date b\<rparr>) = 1"
    by (simp add: calculate_total_days_def datetime_sub_def Let_def)
  from eq short same show ?thesis by simp
qed

theorem calculate_total_days_at_least_one_witness:
  "return_date (booking_3_days\<lparr>return_date := 10 * day + 3600000000\<rparr>)
     - pickup_date (booking_3_days\<lparr>return_date := 10 * day + 3600000000\<rparr>) < 86400000000 \<and>
   calculate_total_days (booking_3_days\<lparr>return_date := 10 * day + 3600000000\<rparr>) = 1"
  using calculate_total_days_at_least_one [of "booking_3_days\<lparr>return_date := 10 * day + 3600000000\<rparr>"]
  by (simp add: booking_3_days_def day_def)

text \<open>
  Claim C6, as the claim states it, fails: \<open>subtotal\<close> and \<open>total_amount\<close> are stored
  fields that the caller supplies, and \<open>Booking.save\<close> stores them as given. A booking
  of 3 days at 100.00 with a total of 250.00 is saved with that total.
\<close>

theorem booking_save_mispriced_counterexample:
  "total_amount (Booking_save ''250101'' ''0042'' booking_mispriced) = 250 \<and>
   subtotal (Booking_save ''250101'' ''0042'' booking_mispriced)
     + tax_amount (Booking_save ''250101'' ''0042'' booking_mispriced)
     + additional_fees (Booking_save ''250101'' ''0042'' booking_mispriced)
     + insurance_cost (Booking_save ''250101'' ''0042'' booking_mispriced)
     - discount_amount (Booking_save ''250101'' ''0042'' booking_mispriced) = 300 \<and>
   \<not> total_amount_identity (Booking_save ''250101'' ''0042'' booking_mispriced)"
  by (simp add: Booking_save_def booking_mispriced_def booking_3_days_def
      total_amount_identity_def)

text \<open>
  Claim C6, amended. \<open>Booking.save\<close> neither computes nor checks the pricing fields:
  \<open>total_amount\<close>, \<open>subtotal\<close>, \<open>total_days\<close> and \<open>daily_rate\<close> are stored as
  supplied, so the identity \<open>total_amount = subtotal + tax_amount + additional_fees +
  insurance_cost - discount_amount\<close> with \<open>subtotal = daily_rate \<times> total_days\<close> holds of
  a saved booking exactly when it held of the values supplied. For a rental of 3 days
  at \<open>daily_rate = 100.00\<close> with no tax, discount, fees or insurance,
  \<open>calculate_total_days\<close> is 3, the right-hand side is 300.00, and a row supplied with
  \<open>subtotal = total_amount = 300.00\<close> satisfies the identity.
\<close>

theorem booking_save_keeps_pricing:
  "total_amount (Booking_save t r b) = total_amount b \<and>
   subtotal (Booking_save t r b) = subtotal b \<and>
   total_days (Booking_save t r b) = total_days b \<and>
   Booking.daily_rate (Booking_save t r b) = Booking.daily_rate b \<and>
   total_amount_identity (Booking_save t r b) = total_amount_identity b \<and>
   calculate_total_days booking_3_days = 3 \<and>
   Booking.daily_rate booking_3_days = 100 \<and>
   Booking.daily_rate booking_3_days * of_int (calculate_total_days booking_3_days) + 0 + 0 + 0 - 0 = 300 \<and>
   total_amount_identity booking_3_days \<and>
   total_amount booking_3_days = 300"
  by (simp add: Booking_save_def total_amount_identity_def calculate_total_days_def
      datetime_sub_def booking_3_days_def day_def)

text \<open>
  Claim C8, as the claim states it, fails for percentage add-ons: \<open>save\<close> never reads
  \<open>pricing_type\<close> or the booking. An assignment of a \<open>percentage\<close> add-on with unit
  price 10 on a booking with subtotal 300.00 is charged 10, not 10 percent of 300.00,
  and the charge is the same on a booking with subtotal 600.00.
\<close>

theorem addon_percentage_counterexample:
  "pricing_type (addon assignment_percentage) = ''percentage'' \<and>
   subtotal (booking assignment_percentage) = 300 \<and>
   map_sum id total_price (BookingAddOnAssignment_save True 5 assignment_percentage) = Inr 10 \<and>
   unit_price assignment_percentage / 100 * subtotal (booking assignment_percentage) = 30 \<and>
   map_sum id total_price
     (BookingAddOnAssignment_save True 5
        (assignment_percentage\<lparr>booking := booking_3_days\<lparr>subtotal := 600\<rparr>\<rparr>)) = Inr 10"
  by (simp add: BookingAddOnAssignment_save_def fits_decimal_field_def
      assignment_percentage_def addon_percentage_def booking_3_days_def)

text \<open>
  Claim C8, amended. For every add-on assignment, whatever the add-on's
  \<open>pricing_type\<close> (\<open>percentage\<close> included) and whatever the booking's subtotal: when
  \<open>unit_price\<close> and \<open>unit_price \<times> quantity\<close> fit the field (eight digits, two
  places), \<open>save\<close> succeeds with \<open>total_price = unit_price \<times> quantity\<close>, on an insert
  and on an update; and no \<open>save\<close> succeeds with any other \<open>total_price\<close>.
\<close>

theorem addon_total_is_unit_price_times_quantity:
  "(fits_decimal_field 8 2 (unit_price a) \<and>
    fits_decimal_field 8 2 (unit_price a * of_nat (quantity a)) \<longrightarrow>
      map_sum id total_price (BookingAddOnAssignment_save adding now a) =
        Inr (unit_price a * of_nat (quantity a)) \<and>
      map_sum id total_price
        (BookingAddOnAssignment_save adding now
           (a\<lparr>booking := b, addon := (addon a)\<lparr>pricing_type := t\<rparr>\<rparr>)) =
        Inr (unit_price a * of_nat (quantity a))) \<and>
   (case BookingAddOnAssignment_save adding now a of
      Inl e \<Rightarrow> True
    | Inr r \<Rightarrow> total_price r = unit_price a * of_nat (quantity a))"
  by (simp add: BookingAddOnAssignment_save_def Let_def)

theorem addon_total_is_unit_price_times_quantity_witness:
  "fits_decimal_field 8 2 (unit_price assignment_percentage) \<and>
   fits_decimal_field 8 2
     (unit_price assignment_percentage * of_nat (quantity assignment_percentage)) \<and>
   map_sum id total_price (BookingAddOnAssignment_save True 5 assignment_percentage) = Inr 10 \<and>
   map_sum id total_price (BookingAddOnAssignment_save False 5 assignment_percentage) = Inr 10"
proof -
  have h: "fits_decimal_field 8 2 (unit_price assignment_percentage) \<and>
      fits_decimal_field 8 2
        (unit_price assignment_percentage * of_nat (quantity assignment_percentage))"
    by (simp add: fits_decimal_field_def assignment_percentage_def)
  have v: "unit_price assignment_percentage * of_nat (quantity assignment_percentage) = 10"
    by (simp add: assignment_percentage_def)
  show ?thesis
    using h addon_total_is_unit_price_times_quantity [of assignment_percentage True 5]
      addon_total_is_unit_price_times_quantity [of assignment_percentage False 5]
    by (simp add: v)
qed


section \<open>Payments\<close>

text \<open>
  Claim C3, as the claim states it, fails: \<open>refund_payments\<close> takes no refund amount,
  never writes \<open>refund_amount\<close> and never yields \<open>partially_refunded\<close>. A completed
  payment of 100.00 with 30.00 refunded becomes \<open>refunded\<close> with its refunded sum
  still 30.00.
\<close>

theorem refund_payments_no_partial_counterexample:
  "Payment.status payment_100 = ''completed'' \<and>
   refund_payments [payment_100] = (1, [payment_100\<lparr>Payment.status := ''refunded''\<rparr>]) \<and>
   Payment.status (hd (snd (refund_payments [payment_100]))) = ''refunded'' \<and>
   refund_amount (hd (snd (refund_payments [payment_100]))) = 30 \<and>
   Payment.amount (hd (snd (refund_payments [payment_100]))) = 100"
  by (simp add: refund_payments_def filter_update_single payment_100_def)

text \<open>
  Claim C3, amended. \<open>is_refundable\<close> holds exactly when the status is \<open>completed\<close>
  and \<open>refund_amount < amount\<close>. For such a payment \<open>refund_payments\<close> updates one
  row and sets its status to \<open>refunded\<close>, changing nothing else; a payment whose
  status is not \<open>completed\<close> is left unchanged with zero rows updated. The action
  takes no refund amount and leaves \<open>amount\<close> and \<open>refund_amount\<close> of every selected
  payment as they were. Every selected payment is either left as it was or has its
  status, and nothing else, set to \<open>refunded\<close>: the action never yields
  \<open>partially_refunded\<close>.
\<close>

theorem refund_payments_marks_refunded:
  "is_refundable p = (Payment.status p = ''completed'' \<and> refund_amount p < Payment.amount p) \<and>
   (is_refundable p \<longrightarrow>
      refund_payments [p] = (1, [p\<lparr>Payment.status := ''refunded''\<rparr>])) \<and>
   (Payment.status p \<noteq> ''completed'' \<longrightarrow> refund_payments [p] = (0, [p])) \<and>
   map refund_amount (snd (refund_payments queryset)) = map refund_amount queryset \<and>
   map Payment.amount (snd (refund_payments queryset)) = map Payment.amount queryset \<and>
   list_all2 (\<lambda>q r. r = q \<or> r = q\<lparr>Payment.status := ''refunded''\<rparr>)
     queryset (snd (refund_payments queryset)) \<and>
   ''partially_refunded''
     \<notin> Payment.status ` (set (snd (refund_payments queryset)) - set queryset)"
proof -
  have rows: "list_all2 (\<lambda>q r. r = q \<or> r = q\<lparr>Payment.status := ''refunded''\<rparr>)
      queryset (snd (refund_payments queryset))"
    by (simp add: refund_payments_def filter_update_def list_all2_map2 list_all2_same)
  have new: "''partially_refunded''
      \<notin> Payment.status ` (set (snd (refund_payments queryset)) - set queryset)"
    by (auto simp add: refund_payments_def filter_update_def)
  have single: "is_refundable p = (Payment.status p = ''completed'' \<and> refund_amount p < Payment.amount p) \<and>
      (is_refundable p \<longrightarrow>
         refund_payments [p] = (1, [p\<lparr>Payment.status := ''refunded''\<rparr>])) \<and>
      (Payment.status p \<noteq> ''completed'' \<longrightarrow> refund_payments [p] = (0, [p]))"
    by (auto simp add: refund_payments_def filter_update_single is_refundable_def)
  have kept: "map refund_amount (snd (refund_payments queryset)) = map refund_amount queryset \<and>
      map Payment.amount (snd (refund_payments queryset)) = map Payment.amount queryset"
    by (simp add: refund_payments_def filter_update_def)
  from single kept rows new show ?thesis by blast
qed

theorem refund_payments_marks_refunded_witness:
  "is_refundable payment_100 \<and>
   refund_payments [payment_100] = (1, [payment_100\<lparr>Payment.status := ''refunded''\<rparr>]) \<and>
   Payment.status (payment_100\<lparr>Payment.status := ''failed''\<rparr>) \<noteq> ''completed'' \<and>
   refund_payments [payment_100\<lparr>Payment.status := ''failed''\<rparr>] =
     (0, [payment_100\<lparr>Payment.status := ''failed''\<rparr>])"
proof -
  have h1: "is_refundable payment_100"
    by (simp add: is_refundable_def payment_100_def)
  have h2: "Payment.status (payment_100\<lparr>Payment.status := ''failed''\<rparr>) \<noteq> ''completed''"
    by simp
  show ?thesis
    using h1 h2 refund_payments_marks_refunded [of payment_100 "[]"]
      refund_payments_marks_refunded [of "payment_100\<lparr>Payment.status := ''failed''\<rparr>" "[]"]
    by simp
qed

text \<open>
  Claim C4. If every selected payment satisfies \<open>refund_amount \<le> amount\<close> before
  \<open>refund_payments\<close>, every payment satisfies it afterwards.
\<close>

theorem refund_keeps_refund_amount_le_amount:
  assumes "\<forall>p \<in> set queryset. refund_amount p \<le> Payment.amount p"
  shows "\<forall>p \<in> set (snd (refund_payments queryset)). refund_amount p \<le> Payment.amount p"
  using assms by (auto simp add: refund_payments_def filter_update_def)

theorem refund_keeps_refund_amount_le_amount_witness:
  "refund_amount payment_100 \<le> Payment.amount payment_100 \<and>
   refund_amount (hd (snd (refund_payments [payment_100])))
     \<le> Payment.amount (hd (snd (refund_payments [payment_100])))"
proof -
  have h: "\<forall>p \<in> set [payment_100]. refund_amount p \<le> Payment.amount p"
    by (simp add: payment_100_def)
  have "snd (refund_payments [payment_100]) \<noteq> []"
    by (simp add: refund_payments_def filter_update_def)
  then have "hd (snd (refund_payments [payment_100])) \<in> set (snd (refund_payments [payment_100]))"
    by simp
  with refund_keeps_refund_amount_le_amount [OF h] h show ?thesis
    by simp
qed

section \<open>Invoice numbers\<close>

subsection \<open>Digits and their values\<close>

lemma digit_char_simps:
  "digit_char 0 = CHR ''0''" "digit_char 1 = CHR ''1''" "digit_char 2 = CHR ''2''"
  "digit_char 3 = CHR ''3''" "digit_char 4 = CHR ''4''" "digit_char 5 = CHR ''5''"
  "digit_char 6 = CHR ''6''" "digit_char 7 = CHR ''7''" "digit_char 8 = CHR ''8''"
  "digit_char 9 = CHR ''9''" "digit_char (Suc 0) = CHR ''1''"
  by (simp_all add: digit_char_def)

lemma digit_char_digit:
  assumes "d < 10"
  shows "is_digit (digit_char d) \<and> digit_val (digit_char d) = d"
proof -
  from assms have "d = 0 \<or> d = 1 \<or> d = 2 \<or> d = 3 \<or> d = 4 \<or> d = 5 \<or> d = 6 \<or> d = 7 \<or> d = 8 \<or> d = 9"
    by arith
  then show ?thesis
    by (elim disjE) (simp_all add: digit_char_simps is_digit_def digit_val_def)
qed

lemma foldl_digits:
  "foldl (\<lambda>a c. 10 * a + digit_val c) a s = a * 10 ^ length s + digits_value s"
proof (induction s arbitrary: a)
  case Nil
  show ?case by (simp add: digits_value_def)
next
  case (Cons c cs)
  have "foldl (\<lambda>a c. 10 * a + digit_val c) a (c # cs) =
        (10 * a + digit_val c) * 10 ^ length cs + digits_value cs"
    by (simp add: Cons.IH)
  moreover have "digits_value (c # cs) = digit_val c * 10 ^ length cs + digits_value cs"
    by (simp add: digits_value_def Cons.IH [of "digit_val c"])
  ultimately show ?case by (simp add: algebra_simps)
qed

lemma digits_value_Cons:
  "digits_value (c # cs) = digit_val c * 10 ^ length cs + digits_value cs"
  using foldl_digits [of "digit_val c" cs] by (simp add: digits_value_def)

lemma digits_value_append:
  "digits_value (xs @ ys) = digits_value xs * 10 ^ length ys + digits_value ys"
  using foldl_digits [of "digits_value xs" ys] by (simp add: digits_value_def)

lemma digits_value_zeros: "digits_value (replicate k CHR ''0'') = 0"
  by (induction k) (simp_all add: digits_value_def digits_value_Cons digit_val_def)

lemma digits_value_bound:
  "list_all is_digit s \<Longrightarrow> digits_value s < 10 ^ length s"
proof (induction s)
  case Nil
  show ?case by (simp add: digits_value_def)
next
  case (Cons c cs)
  then have "digit_val c \<le> 9" and b: "digits_value cs < 10 ^ length cs"
    by (auto simp add: is_digit_def digit_val_def)
  then have m: "digit_val c * 10 ^ length cs \<le> 9 * 10 ^ length cs"
    by (simp only: mult_le_mono1)
  have e: "(10::nat) ^ length (c # cs) = 10 * 10 ^ length cs"
    by simp
  show ?case
    unfolding e digits_value_Cons using b m by linarith
qed

lemma str_of_nat_digits:
  "list_all is_digit (str_of_nat n) \<and> digits_value (str_of_nat n) = n"
proof (induction n rule: str_of_nat.induct)
  case (1 n)
  show ?case
  proof (cases "n < 10")
    case True
    then show ?thesis
      using digit_char_digit [of n]
      by (subst (1 2) str_of_nat.simps) (simp add: digits_value_Cons digits_value_def)
  next
    case False
    have d: "is_digit (digit_char (n mod 10)) \<and> digit_val (digit_char (n mod 10)) = n mod 10"
      by (rule digit_char_digit) simp
    from False 1 have ih: "list_all is_digit (str_of_nat (n div 10))"
      "digits_value (str_of_nat (n div 10)) = n div 10"
      by simp_all
    have eq: "str_of_nat n = str_of_nat (n div 10) @ [digit_char (n mod 10)]"
      using False by (subst str_of_nat.simps) simp
    show ?thesis
      using d ih by (simp add: eq digits_value_append digits_value_Cons digits_value_def)
  qed
qed

lemma format_04d_nat:
  "format_04d (int n) = replicate (4 - length (str_of_nat n)) CHR ''0'' @ str_of_nat n"
  by (simp add: format_04d_def)

lemma format_04d_digits:
  "list_all is_digit (format_04d (int n)) \<and> digits_value (format_04d (int n)) = n"
proof -
  have z: "list_all is_digit (replicate k CHR ''0'')" for k
    by (simp add: list_all_iff is_digit_def)
  show ?thesis
    using str_of_nat_digits [of n] z
    by (simp add: format_04d_nat digits_value_append digits_value_zeros)
qed

lemma digit_plain:
  assumes "is_digit c"
  shows "\<not> is_space c" "c \<noteq> CHR ''-''" "c \<noteq> CHR ''+''" "c \<noteq> CHR ''_''"
  using assms by (auto simp add: is_digit_def is_space_def)

lemma digit_groups_digits:
  "s \<noteq> [] \<Longrightarrow> list_all is_digit s \<Longrightarrow> digit_groups s"
proof (induction s rule: digit_groups.induct)
  case 1
  then show ?case by simp
next
  case (2 c)
  then show ?case by simp
next
  case (3 c d cs)
  then have "is_digit d" by simp
  then have "d \<noteq> CHR ''_''" by (rule digit_plain(4))
  with 3 show ?case by simp
qed

lemma strip_digits:
  assumes "s \<noteq> []" "list_all is_digit s"
  shows "strip s = s"
proof -
  from assms have "is_digit (hd s)" "is_digit (last s)"
    by (simp_all add: list_all_iff)
  then have h: "\<not> is_space (hd s)" and l: "\<not> is_space (last s)"
    by (simp_all add: digit_plain(1))
  from h have a: "dropWhile is_space s = s"
    by (simp add: dropWhile_eq_self_iff)
  from l have "dropWhile is_space (rev s) = rev s"
    by (simp add: dropWhile_eq_self_iff hd_rev)
  with a show ?thesis by (simp add: strip_def)
qed

lemma int_of_str_digits:
  assumes "s \<noteq> []" "list_all is_digit s"
  shows "int_of_str s = Inr (int (digits_value s))"
proof -
  from assms have "is_digit (hd s)"
    by (simp add: list_all_iff)
  then have sign: "hd s \<noteq> CHR ''-''" "hd s \<noteq> CHR ''+''"
    by (simp_all add: digit_plain)
  from assms(2) have "\<forall>c \<in> set s. c \<noteq> CHR ''_''"
    using digit_plain(4) by (auto simp add: list_all_iff)
  then have f: "filter (\<lambda>c. c \<noteq> CHR ''_'') s = s"
    by simp
  show ?thesis
    using sign f strip_digits [OF assms] digit_groups_digits [OF assms]
    by (simp add: int_of_str_def)
qed

lemma str_of_nat_length_le:
  "n < 10 ^ k \<Longrightarrow> 0 < k \<Longrightarrow> length (str_of_nat n) \<le> k"
proof (induction n arbitrary: k rule: str_of_nat.induct)
  case (1 n)
  show ?case
  proof (cases "n < 10")
    case True
    then have "str_of_nat n = [digit_char n]"
      by (subst str_of_nat.simps) simp
    with 1(3) show ?thesis by simp
  next
    case False
    have eq: "str_of_nat n = str_of_nat (n div 10) @ [digit_char (n mod 10)]"
      using False by (subst str_of_nat.simps) simp
    obtain j where k: "k = Suc j"
      using 1(3) by (cases k) auto
    have "0 < j"
    proof (rule ccontr)
      assume "\<not> 0 < j"
      with k 1(2) False show False by simp
    qed
    moreover from 1(2) k have "n div 10 < 10 ^ j"
      by (simp add: less_mult_imp_div_less mult.commute)
    ultimately have "length (str_of_nat (n div 10)) \<le> j"
      using 1(1) [OF False] by blast
    with eq k show ?thesis by simp
  qed
qed

lemma str_of_nat_length_gt:
  "10 ^ k \<le> n \<Longrightarrow> k < length (str_of_nat n)"
proof (induction n arbitrary: k rule: str_of_nat.induct)
  case (1 n)
  show ?case
  proof (cases "n < 10")
    case True
    then have eq: "str_of_nat n = [digit_char n]"
      by (subst str_of_nat.simps) simp
    have "k = 0"
    proof (rule ccontr)
      assume "k \<noteq> 0"
      then obtain j where "k = Suc j" by (cases k) auto
      then have "(10::nat) \<le> 10 ^ k" by simp
      with 1(2) True show False by simp
    qed
    with eq show ?thesis by simp
  next
    case False
    have eq: "str_of_nat n = str_of_nat (n div 10) @ [digit_char (n mod 10)]"
      using False by (subst str_of_nat.simps) simp
    show ?thesis
    proof (cases k)
      case 0
      with eq show ?thesis by simp
    next
      case (Suc j)
      with 1(2) have "10 ^ j \<le> n div 10"
        by (simp add: less_eq_div_iff_mult_less_eq mult.commute)
      then have "j < length (str_of_nat (n div 10))"
        using 1(1) [OF False] by blast
      with eq Suc show ?thesis by simp
    qed
  qed
qed

lemma year_length:
  assumes "1000 \<le> year" "year \<le> 9999"
  shows "length (str_of_nat year) = 4"
proof -
  have "year < 10 ^ 4" using assms by simp
  then have "length (str_of_nat year) \<le> 4"
    by (rule str_of_nat_length_le) simp
  moreover have "10 ^ 3 \<le> year" using assms by simp
  then have "3 < length (str_of_nat year)"
    by (rule str_of_nat_length_gt)
  ultimately show ?thesis by simp
qed

subsection \<open>The string order on digits is the order of their values\<close>

lemma lex_arith:
  fixes dx dy vx vy P :: nat
  assumes "vx < P" "vy < P"
  shows "(dx * P + vx < dy * P + vy) = (dx < dy \<or> dx = dy \<and> vx < vy)"
proof (cases "dx < dy")
  case True
  then have "Suc dx * P \<le> dy * P"
    by (simp only: mult_le_mono1 Suc_leI)
  then have "dx * P + P \<le> dy * P" by simp
  with assms True show ?thesis by linarith
next
  case False
  show ?thesis
  proof (cases "dx = dy")
    case True
    then show ?thesis by simp
  next
    case ne: False
    with False have "dy < dx" by simp
    then have "Suc dy * P \<le> dx * P"
      by (simp only: mult_le_mono1 Suc_leI)
    then have "dy * P + P \<le> dx * P" by simp
    with assms False ne show ?thesis by linarith
  qed
qed

lemma nat_shift_eq:
  fixes a b :: nat
  shows "48 \<le> a \<Longrightarrow> 48 \<le> b \<Longrightarrow> (a = b) = (a - 48 = b - 48)"
  by arith

lemma digit_order:
  assumes "is_digit x" "is_digit y"
  shows "((of_char x :: nat) < of_char y) = (digit_val x < digit_val y)"
    and "(x = y) = (digit_val x = digit_val y)"
proof -
  from assms have b: "48 \<le> (of_char x :: nat)" "48 \<le> (of_char y :: nat)"
    by (simp_all add: is_digit_def)
  from b show "((of_char x :: nat) < of_char y) = (digit_val x < digit_val y)"
    by (auto simp add: digit_val_def)
  have "(x = y) = ((of_char x :: nat) = of_char y)"
    by simp
  also have "\<dots> = (digit_val x = digit_val y)"
    unfolding digit_val_def using b by (rule nat_shift_eq)
  finally show "(x = y) = (digit_val x = digit_val y)" .
qed

lemma str_less_digits:
  assumes "length a = length b" "list_all is_digit a" "list_all is_digit b"
  shows "str_less a b = (digits_value a < digits_value b)"
  using assms
proof (induction a b rule: list_induct2)
  case Nil
  show ?case by (simp add: digits_value_def)
next
  case (Cons x xs y ys)
  then have dx: "is_digit x" and dy: "is_digit y"
    and ih: "str_less xs ys = (digits_value xs < digits_value ys)"
    by simp_all
  from Cons have bx: "digits_value xs < 10 ^ length ys"
    and "digits_value ys < 10 ^ length ys"
    using digits_value_bound [of xs] digits_value_bound [of ys] by simp_all
  then have "(digit_val x * 10 ^ length ys + digits_value xs
              < digit_val y * 10 ^ length ys + digits_value ys) =
             (digit_val x < digit_val y \<or>
              digit_val x = digit_val y \<and> digits_value xs < digits_value ys)"
    by (rule lex_arith)
  with Cons.hyps ih digit_order [OF dx dy] show ?case
    by (simp add: digits_value_Cons)
qed

lemma str_less_prefix: "str_less (p @ a) (p @ b) = str_less a b"
  by (induction p) simp_all

subsection \<open>The greatest number of a queryset\<close>

lemma foldl_greatest:
  fixes f :: "string \<Rightarrow> nat"
  assumes "\<forall>a \<in> set (x # xs). \<forall>b \<in> set (x # xs). str_less a b = (f a < f b)"
  shows "foldl (\<lambda>m s. if str_less m s then s else m) x xs \<in> set (x # xs) \<and>
         (\<forall>s \<in> set (x # xs). f s \<le> f (foldl (\<lambda>m s. if str_less m s then s else m) x xs))"
  using assms
proof (induction xs arbitrary: x)
  case Nil
  show ?case by simp
next
  case (Cons y ys)
  let ?g = "\<lambda>m s. if str_less m s then s else m"
  have xy: "str_less x y = (f x < f y)"
    using Cons.prems by simp
  have sub: "set (?g x y # ys) \<subseteq> set (x # y # ys)"
    by auto
  have "\<forall>a \<in> set (?g x y # ys). \<forall>b \<in> set (?g x y # ys). str_less a b = (f a < f b)"
    using Cons.prems sub by blast
  from Cons.IH [OF this]
  have r: "foldl ?g (?g x y) ys \<in> set (?g x y # ys)"
    and m: "\<forall>s \<in> set (?g x y # ys). f s \<le> f (foldl ?g (?g x y) ys)"
    by blast+
  from m have gm: "f (?g x y) \<le> f (foldl ?g (?g x y) ys)"
    by simp
  have "f x \<le> f (?g x y)" "f y \<le> f (?g x y)"
    using xy by auto
  with gm have "f x \<le> f (foldl ?g (?g x y) ys)" "f y \<le> f (foldl ?g (?g x y) ys)"
    by linarith+
  with r m sub show ?case
    by auto
qed

lemma fold_max_upper:
  fixes xs :: "nat list"
  shows "x \<in> set xs \<Longrightarrow> x \<le> fold max xs a"
    and "a \<le> fold max xs a"
proof -
  have e: "fold max xs a = Max (set (a # xs))"
    by (simp only: Max.set_eq_fold)
  show "a \<le> fold max xs a"
    unfolding e by (rule Max_ge) simp_all
  show "x \<in> set xs \<Longrightarrow> x \<le> fold max xs a"
    unfolding e by (rule Max_ge) simp_all
qed

lemma fold_max_greatest:
  fixes xs :: "nat list"
  assumes "m \<in> set xs" "\<forall>x \<in> set xs. x \<le> m"
  shows "fold max xs 0 = m"
proof -
  have "fold max xs 0 = Max (set (0 # xs))"
    by (simp only: Max.set_eq_fold)
  also have "\<dots> = m"
    using assms by (intro Max_eqI) auto
  finally show ?thesis .
qed

subsection \<open>The next number of a year\<close>

lemma candidate_shape:
  assumes wf: "is_invoice_number c"
    and st: "startswith c p"
    and len: "length p = 7"
  shows "c = p @ drop 7 c" "length (drop 7 c) = 4" "list_all is_digit (drop 7 c)"
    "last4 c = drop 7 c"
proof -
  from wf have l: "length c = 11" and d: "list_all is_digit (drop 3 c)"
    by (simp_all add: is_invoice_number_def)
  from st len have "take 7 c = p"
    by (simp add: startswith_def)
  then have "p @ drop 7 c = take 7 c @ drop 7 c" by simp
  then show "c = p @ drop 7 c" by simp
  from l show "length (drop 7 c) = 4" by simp
  have "drop 7 c = drop 4 (drop 3 c)" by simp
  moreover from d have "list_all is_digit (drop 4 (drop 3 c))"
    unfolding list_all_iff by (meson in_set_dropD)
  ultimately show "list_all is_digit (drop 7 c)" by simp
  from l show "last4 c = drop 7 c" by (simp add: last4_def)
qed

lemma candidates_ordered:
  assumes "is_invoice_number a" "startswith a p"
    and "is_invoice_number b" "startswith b p"
    and len: "length p = 7"
  shows "str_less a b = (counter a < counter b)"
proof -
  note sa = candidate_shape [OF assms(1,2) len]
  note sb = candidate_shape [OF assms(3,4) len]
  have "str_less a b = str_less (p @ drop 7 a) (p @ drop 7 b)"
    using sa(1) sb(1) by simp
  also have "\<dots> = str_less (drop 7 a) (drop 7 b)"
    by (rule str_less_prefix)
  also have "\<dots> = (digits_value (drop 7 a) < digits_value (drop 7 b))"
    using sa(2,3) sb(2,3) by (intro str_less_digits) simp_all
  finally show ?thesis
    by (simp add: counter_def sa(4) sb(4))
qed

lemma generate_invoice_number_next:
  assumes wf: "\<forall>i \<in> set objects. is_invoice_number (invoice_number i)"
    and y: "1000 \<le> year" "year \<le> 9999"
  shows "generate_invoice_number year objects =
           Inr (''INV'' @ str_of_nat year @ format_04d (int (highest_counter year objects) + 1))"
proof -
  let ?p = "''INV'' @ str_of_nat year"
  let ?cands = "filter (\<lambda>n. startswith n ?p) (map invoice_number objects)"
  have len: "length ?p = 7"
    using year_length [OF y] by simp
  have c: "is_invoice_number n \<and> startswith n ?p" if "n \<in> set ?cands" for n
    using that wf by auto
  show ?thesis
  proof (cases ?cands)
    case Nil
    then show ?thesis
      by (simp add: generate_invoice_number_def highest_counter_def)
  next
    case (Cons x xs)
    let ?m = "foldl (\<lambda>m s. if str_less m s then s else m) x xs"
    have "\<forall>a \<in> set (x # xs). \<forall>b \<in> set (x # xs). str_less a b = (counter a < counter b)"
    proof (intro ballI)
      fix a b
      assume "a \<in> set (x # xs)" "b \<in> set (x # xs)"
      then have "a \<in> set ?cands" "b \<in> set ?cands"
        by (simp_all only: Cons)
      then show "str_less a b = (counter a < counter b)"
        using c candidates_ordered [OF _ _ _ _ len] by blast
    qed
    from foldl_greatest [OF this]
    have m_in: "?m \<in> set (x # xs)"
      and m_top: "\<forall>s \<in> set (x # xs). counter s \<le> counter ?m"
      by blast+
    from m_in have "?m \<in> set ?cands"
      by (simp only: Cons)
    then have mc: "is_invoice_number ?m" "startswith ?m ?p"
      using c by blast+
    note shape = candidate_shape [OF mc len]
    have "int_of_str (last4 ?m) = Inr (int (counter ?m))"
    proof -
      from shape(2) have "drop 7 ?m \<noteq> []" by auto
      with shape(3,4) show ?thesis
        by (simp add: int_of_str_digits counter_def)
    qed
    moreover have "highest_counter year objects = counter ?m"
    proof -
      have "fold max (map counter (x # xs)) 0 = counter ?m"
        using m_in m_top by (intro fold_max_greatest) auto
      then show ?thesis
        by (simp only: highest_counter_def Cons)
    qed
    moreover have "first_desc ?cands = Some ?m"
      by (simp only: Cons first_desc.simps)
    ultimately show ?thesis
      by (simp add: generate_invoice_number_def Let_def)
  qed
qed

lemma generated_number_is_new:
  assumes wf: "\<forall>i \<in> set objects. is_invoice_number (invoice_number i)"
    and y: "1000 \<le> year" "year \<le> 9999"
  shows "''INV'' @ str_of_nat year @ format_04d (int (highest_counter year objects) + 1)
           \<notin> set (map invoice_number objects)"
proof
  let ?p = "''INV'' @ str_of_nat year"
  let ?h = "highest_counter year objects"
  let ?g = "''INV'' @ str_of_nat year @ format_04d (int ?h + 1)"
  let ?cands = "filter (\<lambda>n. startswith n ?p) (map invoice_number objects)"
  assume mem: "?g \<in> set (map invoice_number objects)"
  have len: "length ?p = 7"
    using year_length [OF y] by simp
  from mem wf have g_wf: "is_invoice_number ?g"
    by auto
  have g_st: "startswith ?g ?p"
    by (simp add: startswith_def)
  from mem g_st have "?g \<in> set ?cands"
    by simp
  then have "counter ?g \<in> set (map counter ?cands)"
    by (simp only: set_map image_eqI)
  then have le: "counter ?g \<le> ?h"
    unfolding highest_counter_def by (rule fold_max_upper(1))
  note shape = candidate_shape [OF g_wf g_st len]
  have i: "int ?h + 1 = int (Suc ?h)"
    by simp
  have "drop 7 ?g = format_04d (int ?h + 1)"
    using len by simp
  with shape(4) have "counter ?g = digits_value (format_04d (int (Suc ?h)))"
    by (simp only: counter_def i)
  then have "counter ?g = Suc ?h"
    by (simp only: format_04d_digits)
  with le show False by simp
qed

lemma format_04d_length:
  assumes "n < 10000"
  shows "length (format_04d (int n)) = 4"
proof -
  from assms have "n < 10 ^ 4" by simp
  then have "length (str_of_nat n) \<le> 4"
    by (rule str_of_nat_length_le) simp
  then show ?thesis
    by (simp add: format_04d_nat)
qed

subsection \<open>The numbers of 2025\<close>

lemma str_of_nat_2025: "str_of_nat 2025 = ''2025''"
  by (simp add: str_of_nat.simps digit_char_simps)

lemma replicate_3: "replicate 3 x = [x, x, x]"
  by (simp add: numeral_3_eq_3)

lemma format_04d_values:
  "format_04d 1 = ''0001''" "format_04d 2 = ''0002''" "format_04d 10000 = ''10000''"
  by (simp_all add: format_04d_def str_of_nat.simps digit_char_simps digit_char_def replicate_3)

lemma counter_values:
  "counter ''INV20250001'' = 1" "counter ''INV20259999'' = 9999" "counter ''INV202510000'' = 0"
  by (simp_all add: counter_def last4_def digits_value_def digit_val_def)

lemma int_of_str_9999: "int_of_str (last4 ''INV20259999'') = Inr 9999"
proof -
  have "last4 ''INV20259999'' = ''9999''"
    by (simp add: last4_def)
  moreover have "list_all is_digit ''9999''"
    by (simp add: is_digit_def)
  moreover have "digits_value ''9999'' = 9999"
    by (simp add: digits_value_def digit_val_def)
  ultimately show ?thesis
    using int_of_str_digits [of "''9999''"] by simp
qed

lemma str_less_9999_10000: "\<not> str_less ''INV20259999'' ''INV202510000''"
  by simp

text \<open>
  Claim C7, as the claim states it, fails once a year's counter leaves four digits.
  With \<open>INV20259999\<close> the highest number, the next invoice receives
  \<open>INV202510000\<close>, a counter of five digits. With that number in the table, the
  string order still ranks \<open>INV20259999\<close> highest, so the invoice after it is given
  \<open>INV202510000\<close> again, not the highest number plus one, and saving it fails on the
  unique constraint.
\<close>

theorem invoice_number_overflow_counterexample:
  "generate_invoice_number 2025 [invoice_9999] = Inr ''INV202510000'' \<and>
   generate_invoice_number 2025 [invoice_9999, invoice_10000] = Inr ''INV202510000'' \<and>
   ''INV202510000'' \<in> set (map invoice_number [invoice_9999, invoice_10000]) \<and>
   Invoice_save 2025 20000 new_invoice [invoice_9999, invoice_10000] = Inl IntegrityError"
proof -
  have g1: "generate_invoice_number 2025 [invoice_9999] = Inr ''INV202510000''"
    using int_of_str_9999
    by (simp add: generate_invoice_number_def invoice_9999_def new_invoice_def
        str_of_nat_2025 startswith_def format_04d_values)
  have g2: "generate_invoice_number 2025 [invoice_9999, invoice_10000] = Inr ''INV202510000''"
    using int_of_str_9999
    by (simp add: generate_invoice_number_def invoice_9999_def invoice_10000_def new_invoice_def
        str_of_nat_2025 startswith_def format_04d_values)
  have m: "''INV202510000'' \<in> set (map invoice_number [invoice_9999, invoice_10000])"
    by (simp add: invoice_10000_def new_invoice_def)
  have "invoice_number new_invoice = []"
    by (simp add: new_invoice_def)
  with g2 m
  have "Invoice_save 2025 20000 new_invoice [invoice_9999, invoice_10000] = Inl IntegrityError"
    by (simp add: Invoice_save_def)
  with g1 g2 m show ?thesis by simp
qed

text \<open>
  Claim C7, amended. Under serialized creation, in a table whose invoice numbers all have
  the shape \<open>INV\<close>, four-digit year, four-digit counter, and for a four-digit year:
  the next invoice receives \<open>INV{year}\<close> followed by the highest counter of that year
  plus one in the format \<open>04d\<close>; the number is new, so \<open>save\<close> succeeds and the
  invoice numbers of the table are the old ones followed by that number; the counter
  has exactly four digits while the highest counter is below 9999; and the first
  invoice of a year receives \<open>INV{year}0001\<close>. So two invoices created in the same
  year receive \<open>INV{year}0001\<close> and \<open>INV{year}0002\<close>.
\<close>

theorem invoice_numbers_sequential:
  assumes "\<forall>i \<in> set objects. is_invoice_number (invoice_number i)"
    and "1000 \<le> year" "year \<le> 9999"
  shows "generate_invoice_number year objects =
           Inr (''INV'' @ str_of_nat year @
                format_04d (int (highest_counter year objects) + 1)) \<and>
         map_sum id (map invoice_number)
             (Invoice_save year today (self\<lparr>invoice_number := []\<rparr>) objects) =
           Inr (map invoice_number objects @
                [''INV'' @ str_of_nat year @
                 format_04d (int (highest_counter year objects) + 1)]) \<and>
         (highest_counter year objects < 9999 \<longrightarrow>
            length (format_04d (int (highest_counter year objects) + 1)) = 4) \<and>
         generate_invoice_number year [] = Inr (''INV'' @ str_of_nat year @ ''0001'')"
proof -
  note g = generate_invoice_number_next [OF assms]
  note n = generated_number_is_new [OF assms]
  from g n have s: "map_sum id (map invoice_number)
        (Invoice_save year today (self\<lparr>invoice_number := []\<rparr>) objects) =
      Inr (map invoice_number objects @
           [''INV'' @ str_of_nat year @
            format_04d (int (highest_counter year objects) + 1)])"
    by (simp add: Invoice_save_def)
  have l: "highest_counter year objects < 9999 \<longrightarrow>
      length (format_04d (int (highest_counter year objects) + 1)) = 4"
  proof
    assume "highest_counter year objects < 9999"
    then have "Suc (highest_counter year objects) < 10000"
      by simp
    then have "length (format_04d (int (Suc (highest_counter year objects)))) = 4"
      by (rule format_04d_length)
    moreover have "int (highest_counter year objects) + 1 = int (Suc (highest_counter year objects))"
      by simp
    ultimately show "length (format_04d (int (highest_counter year objects) + 1)) = 4"
      by (simp only:)
  qed
  have e: "generate_invoice_number year [] = Inr (''INV'' @ str_of_nat year @ ''0001'')"
    by (simp add: generate_invoice_number_def format_04d_values)
  from g s l e show ?thesis by blast
qed

theorem invoice_numbers_sequential_witness:
  "generate_invoice_number 2025 [] = Inr ''INV20250001'' \<and>
   map_sum id (map invoice_number) (Invoice_save 2025 20000 new_invoice []) =
     Inr [''INV20250001''] \<and>
   highest_counter 2025 [invoice_0001] < 9999 \<and>
   generate_invoice_number 2025 [invoice_0001] = Inr ''INV20250002'' \<and>
   map_sum id (map invoice_number) (Invoice_save 2025 20000 new_invoice [invoice_0001]) =
     Inr [''INV20250001'', ''INV20250002''] \<and>
   length (format_04d (int (highest_counter 2025 [invoice_0001]) + 1)) = 4"
proof -
  have y: "(1000::nat) \<le> 2025" "(2025::nat) \<le> 9999"
    by simp_all
  have w0: "\<forall>i \<in> set ([]::Invoice list). is_invoice_number (invoice_number i)"
    by simp
  have w1: "\<forall>i \<in> set [invoice_0001]. is_invoice_number (invoice_number i)"
    by (simp add: invoice_0001_def new_invoice_def is_invoice_number_def is_digit_def)
  have h0: "highest_counter 2025 [] = 0"
    by (simp add: highest_counter_def)
  have h1: "highest_counter 2025 [invoice_0001] = 1"
    by (simp add: highest_counter_def invoice_0001_def new_invoice_def str_of_nat_2025
        startswith_def counter_values)
  have n: "new_invoice\<lparr>invoice_number := []\<rparr> = new_invoice"
    by (simp add: new_invoice_def)
  have i: "invoice_number invoice_0001 = ''INV20250001''"
    by (simp add: invoice_0001_def)
  show ?thesis
    using invoice_numbers_sequential [OF w0 y, of 20000 new_invoice]
      invoice_numbers_sequential [OF w1 y, of 20000 new_invoice]
    by (simp add: h0 h1 n i str_of_nat_2025 format_04d_values)
qed


section \<open>Logout\<close>

text \<open>
  Claim C9, as the claim states it, fails: not every authenticated logout request is
  answered with success. A request whose body is a JSON array is answered
  \<open>Logout failed\<close> with status 400, because \<open>.get\<close> on the parsed list raises inside
  the outer \<open>try\<close>; the sessions of the user are deactivated all the same. The same
  answer is given when the session update itself raises.
\<close>

theorem logout_array_body_counterexample:
  "fst (LogoutView_post None blacklist_accepting 1 (Inr (JList [JStr ''token'']))
          ([session_of_user_1], [])) =
     \<lparr>data = [(''error'', ''Logout failed'')], status_code = 400\<rparr> \<and>
   fst (snd (LogoutView_post None blacklist_accepting 1 (Inr (JList [JStr ''token'']))
          ([session_of_user_1], []))) =
     [session_of_user_1\<lparr>UserSession.is_active := False\<rparr>] \<and>
   fst (LogoutView_post (Some DatabaseError) blacklist_accepting 1
          (Inr (JDict [(''refresh_token'', JStr ''token'')])) ([session_of_user_1], [])) =
     \<lparr>data = [(''error'', ''Logout failed'')], status_code = 400\<rparr>"
  by (simp add: LogoutView_post_def filter_update_def session_of_user_1_def)

text \<open>
  Claim C9, amended. When the session update does not raise and the body of the request
  is an object, \<open>LogoutView.post\<close> answers \<open>Logout successful\<close> with status 200 for
  every content of the body and every behaviour of the blacklisting, one that raises
  included. For every request, neither the response nor the sessions depend on what the
  blacklisting does: its errors are dropped. When the session update raises, when the
  body cannot be read, or when the body is not an object, the answer is
  \<open>Logout failed\<close> with status 400.
\<close>

theorem logout_reports_success:
  "fst (LogoutView_post None blacklist request_user (Inr (JDict items)) st) =
     \<lparr>data = [(''message'', ''Logout successful'')], status_code = 200\<rparr> \<and>
   fst (LogoutView_post None blacklist_raising request_user (Inr (JDict items)) st) =
     \<lparr>data = [(''message'', ''Logout successful'')], status_code = 200\<rparr> \<and>
   fst (LogoutView_post db_fault blacklist request_user request_data st) =
     fst (LogoutView_post db_fault blacklist' request_user request_data st) \<and>
   fst (snd (LogoutView_post db_fault blacklist request_user request_data st)) =
     fst (snd (LogoutView_post db_fault blacklist' request_user request_data st)) \<and>
   fst (LogoutView_post (Some e) blacklist request_user request_data st) =
     \<lparr>data = [(''error'', ''Logout failed'')], status_code = 400\<rparr> \<and>
   fst (LogoutView_post None blacklist request_user (Inl e) st) =
     \<lparr>data = [(''error'', ''Logout failed'')], status_code = 400\<rparr> \<and>
   fst (LogoutView_post None blacklist request_user (Inr (JList xs)) st) =
     \<lparr>data = [(''error'', ''Logout failed'')], status_code = 400\<rparr> \<and>
   fst (LogoutView_post None blacklist request_user (Inr (JStr s)) st) =
     \<lparr>data = [(''error'', ''Logout failed'')], status_code = 400\<rparr> \<and>
   fst (LogoutView_post None blacklist request_user (Inr (JNum n)) st) =
     \<lparr>data = [(''error'', ''Logout failed'')], status_code = 400\<rparr> \<and>
   fst (LogoutView_post None blacklist request_user (Inr (JBool c)) st) =
     \<lparr>data = [(''error'', ''Logout failed'')], status_code = 400\<rparr> \<and>
   fst (LogoutView_post None blacklist request_user (Inr JNull) st) =
     \<lparr>data = [(''error'', ''Logout failed'')], status_code = 400\<rparr>"
proof -
  have indep:
    "fst (LogoutView_post db_fault blacklist request_user request_data st) =
       fst (LogoutView_post db_fault blacklist' request_user request_data st) \<and>
     fst (snd (LogoutView_post db_fault blacklist request_user request_data st)) =
       fst (snd (LogoutView_post db_fault blacklist' request_user request_data st))"
    by (simp add: LogoutView_post_def Let_def split: option.splits sum.splits json.splits)
  have rest:
    "fst (LogoutView_post None blacklist request_user (Inr (JDict items)) st) =
       \<lparr>data = [(''message'', ''Logout successful'')], status_code = 200\<rparr>"
    "fst (LogoutView_post None blacklist_raising request_user (Inr (JDict items)) st) =
       \<lparr>data = [(''message'', ''Logout successful'')], status_code = 200\<rparr>"
    "fst (LogoutView_post (Some e) blacklist request_user request_data st) =
       \<lparr>data = [(''error'', ''Logout failed'')], status_code = 400\<rparr>"
    "fst (LogoutView_post None blacklist request_user (Inl e) st) =
       \<lparr>data = [(''error'', ''Logout failed'')], status_code = 400\<rparr>"
    "fst (LogoutView_post None blacklist request_user (Inr (JList xs)) st) =
       \<lparr>data = [(''error'', ''Logout failed'')], status_code = 400\<rparr>"
    "fst (LogoutView_post None blacklist request_user (Inr (JStr s)) st) =
       \<lparr>data = [(''error'', ''Logout failed'')], status_code = 400\<rparr>"
    "fst (LogoutView_post None blacklist request_user (Inr (JNum n)) st) =
       \<lparr>data = [(''error'', ''Logout failed'')], status_code = 400\<rparr>"
    "fst (LogoutView_post None blacklist request_user (Inr (JBool c)) st) =
       \<lparr>data = [(''error'', ''Logout failed'')], status_code = 400\<rparr>"
    "fst (LogoutView_post None blacklist request_user (Inr JNull) st) =
       \<lparr>data = [(''error'', ''Logout failed'')], status_code = 400\<rparr>"
    by (simp_all add: LogoutView_post_def Let_def)
  from indep rest show ?thesis by simp
qed


section \<open>Vehicles\<close>

text \<open>
  Claim C10. \<open>is_available_for_booking\<close> is true exactly when the status is
  \<open>available\<close> and \<open>is_active\<close> is set; an inactive vehicle is not bookable, also
  when its status is \<open>available\<close>.
\<close>

theorem is_available_for_booking_iff:
  "is_available_for_booking v = (Vehicle.status v = ''available'' \<and> Vehicle.is_active v) \<and>
   is_available_for_booking (v\<lparr>Vehicle.is_active := False\<rparr>) = False \<and>
   is_available_for_booking (v\<lparr>Vehicle.status := ''available'', Vehicle.is_active := False\<rparr>) = False"
  by (simp add: is_available_for_booking_def)

end
